theory Spec2Isabelle
  imports Main "HOL-Library.Word"
begin

section \<open>Data of the dispatching protocol\<close>

text \<open>
  The embedding follows \<^verbatim>\<open>base_station.cc\<close>. Addresses are \<^verbatim>\<open>ns3::Ipv4Address\<close>
  values (32 bits), ports are \<^verbatim>\<open>uint16_t\<close>. The capacity figures of tasks and devices are
  only ever compared, never computed with, so they are kept as integers.
\<close>

type_synonym ipv4 = "32 word"
type_synonym port = "16 word"

text \<open>The accessor \<^verbatim>\<open>id()\<close> of a task is called \<open>task_id\<close> here, since \<open>id\<close> is the identity of HOL.\<close>

record task =
  task_id :: string
  needed_cpu_cycles :: int
  needed_memory :: int
  budget :: int

text \<open>
  What the handlers read from an edge device, under the names \<^verbatim>\<open>base_station.cc\<close> calls:
  its address, its port and its offer.
\<close>

record edge_device =
  device_address :: ipv4
  device_port :: port
  free_cpu_cycles :: int
  free_memory :: int
  price :: int

text \<open>
  The message types the two handlers name. A message carries its type tag and the task;
  \<^verbatim>\<open>message::from_packet\<close> and \<^verbatim>\<open>to_packet\<close> convert between a packet and a message without
  loss, so a packet is identified with the message it carries.
\<close>

datatype message_type =
    message_dispatching
  | message_offloading_task
  | message_handling
  | message_dispatching_success
  | message_dispatching_failure

record message =
  msg_type :: message_type
  to_task :: task

type_synonym packet = message

text \<open>One call \<^verbatim>\<open>m_udp_application->write(packet, destination, port)\<close>.\<close>

type_synonym written = "packet \<times> ipv4 \<times> port"

record base_station =
  get_address :: ipv4
  get_port :: port
  m_edge_devices :: "edge_device list"
  m_cs_address :: "ipv4 \<times> port"

text \<open>
  The container owns the stations and the dispatching record that all of them share. The
  member \<^verbatim>\<open>m_dispatching_record\<close> is used through \<^verbatim>\<open>emplace(task_id, bs_ip)\<close>,
  \<^verbatim>\<open>equal_range(task_id)\<close> walked from its first to its second iterator, and
  \<^verbatim>\<open>erase(task_id)\<close>: the operations of a \<^verbatim>\<open>std::multimap\<close> from strings to strings, which
  keeps every inserted pair. It is modelled as the list of its pairs in the order of
  insertion; none of the three operations observes the order between different keys.
  Every station reaches the container through its pointer \<^verbatim>\<open>m_base_stations\<close>; in the model
  the container is passed to the station's handlers and returned by them.
\<close>

record base_station_container =
  m_base_stations :: "base_station list"
  m_dispatching_record :: "(string \<times> string) list"

section \<open>The container\<close>

definition size_bs :: "base_station_container \<Rightarrow> nat" where
  "size_bs c = length (m_base_stations c)"

text \<open>
  \<^verbatim>\<open>CHECK_INDEX(index)\<close> throws \<^verbatim>\<open>std::out_of_range\<close> when \<^verbatim>\<open>index > size()\<close>. After it,
  \<^verbatim>\<open>m_base_stations[index]\<close> is the unchecked subscript of a vector: it yields the element
  for an index below the size and reads past the end of the vector otherwise.
\<close>

datatype access_error = out_of_range | read_past_the_end

definition get :: "base_station_container \<Rightarrow> nat \<Rightarrow> access_error + base_station" where
  "get c index =
     (if index > size_bs c then Inl out_of_range
      else if index < length (m_base_stations c) then Inr (m_base_stations c ! index)
      else Inl read_past_the_end)"

definition operator_subscript :: "base_station_container \<Rightarrow> nat \<Rightarrow> access_error + base_station" where
  "operator_subscript c index = get c index"

definition operator_call :: "base_station_container \<Rightarrow> nat \<Rightarrow> access_error + base_station" where
  "operator_call c index = get c index"

definition dispatching_record ::
  "base_station_container \<Rightarrow> string \<Rightarrow> string \<Rightarrow> base_station_container" where
  "dispatching_record c tid bs_ip =
     c\<lparr>m_dispatching_record := m_dispatching_record c @ [(tid, bs_ip)]\<rparr>"

definition equal_range :: "(string \<times> string) list \<Rightarrow> string \<Rightarrow> (string \<times> string) list" where
  "equal_range m tid = filter (\<lambda>r. fst r = tid) m"

text \<open>The loop of \<^verbatim>\<open>dispatched\<close> over the records of one task.\<close>

fun dispatched_loop :: "(string \<times> string) list \<Rightarrow> string \<Rightarrow> bool" where
  "dispatched_loop [] bs_ip = True"
| "dispatched_loop (i # records) bs_ip =
     (if snd i = bs_ip then False else dispatched_loop records bs_ip)"

definition dispatched :: "base_station_container \<Rightarrow> string \<Rightarrow> string \<Rightarrow> bool" where
  "dispatched c tid bs_ip =
     dispatched_loop (equal_range (m_dispatching_record c) tid) bs_ip"

definition erase_dispatching_record ::
  "base_station_container \<Rightarrow> string \<Rightarrow> base_station_container" where
  "erase_dispatching_record c tid =
     c\<lparr>m_dispatching_record := filter (\<lambda>r. fst r \<noteq> tid) (m_dispatching_record c)\<rparr>"

section \<open>Matching a task against the devices of a station\<close>

text \<open>
  Both handlers walk the devices of the station in their order and leave the loop at the
  first device whose offer passes the test; \<open>first_fit\<close> is that walk and returns the device
  the loop body runs for.
\<close>

fun first_fit :: "task \<Rightarrow> edge_device list \<Rightarrow> edge_device option" where
  "first_fit t [] = None"
| "first_fit t (device # devices) =
     (if free_cpu_cycles device > needed_cpu_cycles t \<and>
         free_memory device > needed_memory t \<and>
         price device \<le> budget t
      then Some device
      else first_fit t devices)"

fun has_free_resource :: "task \<Rightarrow> edge_device list \<Rightarrow> bool" where
  "has_free_resource t [] = False"
| "has_free_resource t (device # devices) =
     (if free_cpu_cycles device > needed_cpu_cycles t \<and>
         free_memory device > needed_memory t \<and>
         price device \<le> budget t
      then True
      else has_free_resource t devices)"

text \<open>
  The condition of the matcher in the words of the specification, to compare the loop
  with.
\<close>

definition satisfies :: "task \<Rightarrow> edge_device \<Rightarrow> bool" where
  "satisfies t o' \<longleftrightarrow>
     free_cpu_cycles o' > needed_cpu_cycles t \<and>
     free_memory o' > needed_memory t \<and>
     price o' \<le> budget t"

section \<open>The two handlers\<close>

text \<open>
  \<^verbatim>\<open>on_dispatching_message\<close> answers a request. Its first statement is a log line, and one
  of the arguments of that line is \<^verbatim>\<open>m_edge_devices->get_device(0)->get_address()\<close>, which
  is evaluated before the loop over the devices. \<^verbatim>\<open>get_device\<close> is declared in
  \<^verbatim>\<open>edge_device.h\<close> and defined outside these sources: for a position inside the container
  it hands out the device there; an empty container has no device to hand out, so the
  statement has no address to read and the handler does not get to its loop. The text
  printed is not part of the model. The handler has the container at hand and does not
  touch it, which the model shows by returning it.
\<close>

datatype handler_failure = device_0_missing

definition get_device :: "edge_device list \<Rightarrow> nat \<Rightarrow> edge_device option" where
  "get_device devices index =
     (if index < length devices then Some (devices ! index) else None)"

definition on_dispatching_message ::
  "base_station_container \<Rightarrow> base_station \<Rightarrow> packet \<Rightarrow>
     handler_failure + written list \<times> base_station_container" where
  "on_dispatching_message c this packet =
     (case get_device (m_edge_devices this) 0 of
        None \<Rightarrow> Inl device_0_missing
      | Some logged \<Rightarrow>
          (let msg = packet; t = to_task msg in
           case first_fit t (m_edge_devices this) of
             Some device \<Rightarrow>
               Inr ([(msg\<lparr>msg_type := message_handling\<rparr>,
                        device_address device, device_port device),
                     (msg\<lparr>msg_type := message_dispatching_success\<rparr>,
                        fst (m_cs_address this), snd (m_cs_address this))], c)
           | None \<Rightarrow>
               Inr ([(msg\<lparr>msg_type := message_dispatching_failure\<rparr>,
                        fst (m_cs_address this), snd (m_cs_address this))], c)))"

text \<open>
  \<^verbatim>\<open>on_offloading_message\<close> has three ways out, each with its own log line: the matched
  device, another station, the cloud server. The result names the way taken, the packets
  written and the container afterwards. The station's address enters the record as the
  string \<^verbatim>\<open>fmt::format("{:ip}", address)\<close>; the formatter lives in
  \<^verbatim>\<open>format_helper.hpp\<close>, so it is the parameter \<open>ip\<close>. The predicate
  \<^verbatim>\<open>non_dispatched_bs\<close> reads the record when \<^verbatim>\<open>std::find_if\<close> calls it, that is after this
  station has been recorded.
\<close>

datatype offload_branch =
    to_device edge_device
  | to_station base_station
  | to_cloud

definition on_offloading_message ::
  "(ipv4 \<Rightarrow> string) \<Rightarrow> base_station_container \<Rightarrow> base_station \<Rightarrow> packet \<Rightarrow>
     offload_branch \<times> written list \<times> base_station_container" where
  "on_offloading_message ip c this packet =
     (let msg = packet; t = to_task msg in
      case first_fit t (m_edge_devices this) of
        Some device \<Rightarrow>
          (to_device device,
           [(msg\<lparr>msg_type := message_handling\<rparr>, device_address device, device_port device)],
           erase_dispatching_record c (task_id t))
      | None \<Rightarrow>
          (let c1 = dispatching_record c (task_id t) (ip (get_address this)) in
           case find (\<lambda>bs. dispatched c1 (task_id t) (ip (get_address bs))) (m_base_stations c1) of
             Some it \<Rightarrow>
               (to_station it, [(packet, get_address it, get_port it)], c1)
           | None \<Rightarrow>
               (to_cloud,
                [(msg\<lparr>msg_type := message_handling\<rparr>,
                    fst (m_cs_address this), snd (m_cs_address this))],
                erase_dispatching_record c1 (task_id t))))"

section \<open>Repeated handling of one task\<close>

text \<open>
  A packet written to a station is received by that station, which runs
  \<^verbatim>\<open>on_offloading_message\<close> on it in turn. \<open>offload_run\<close> follows one packet from station to
  station for at most the given number of handling steps. It returns the stations that
  handled the packet, the way out taken by the last of them, the packets the last of them
  wrote and the container at the end, or \<open>None\<close> when the packet is still travelling after
  that many steps.
\<close>

fun resolved :: "offload_branch \<Rightarrow> bool" where
  "resolved (to_device device) = True"
| "resolved (to_station it) = False"
| "resolved to_cloud = True"

fun offload_run ::
  "(ipv4 \<Rightarrow> string) \<Rightarrow> packet \<Rightarrow> nat \<Rightarrow> base_station_container \<Rightarrow> base_station \<Rightarrow>
     (base_station list \<times> offload_branch \<times> written list \<times> base_station_container) option" where
  "offload_run ip packet 0 c this = None"
| "offload_run ip packet (Suc n) c this =
     (case on_offloading_message ip c this packet of
        (to_station it, w, c') \<Rightarrow>
          (case offload_run ip packet n c' it of
             None \<Rightarrow> None
           | Some (path, b, w', c'') \<Rightarrow> Some (this # path, b, w', c''))
      | (b, w, c') \<Rightarrow> Some ([this], b, w, c'))"

text \<open>
  The states a packet can be in while it travels: \<open>offload_reach ip packet c0 s0 visited c this\<close>
  says that the packet, first handed to station \<open>s0\<close> with container \<open>c0\<close>, has been handled
  and forwarded by the stations \<open>visited\<close>, in this order, and is now to be handled by \<open>this\<close>
  with container \<open>c\<close>. Between two of its steps any station may handle packets of tasks with
  other ids, by either handler.
\<close>

inductive offload_reach ::
  "(ipv4 \<Rightarrow> string) \<Rightarrow> packet \<Rightarrow> base_station_container \<Rightarrow> base_station \<Rightarrow>
     base_station list \<Rightarrow> base_station_container \<Rightarrow> base_station \<Rightarrow> bool"
  for ip :: "ipv4 \<Rightarrow> string" and packet :: packet and c0 :: base_station_container
    and s0 :: base_station where
  arrived: "offload_reach ip packet c0 s0 [] c0 s0"
| forwarded:
    "offload_reach ip packet c0 s0 visited c this \<Longrightarrow>
     on_offloading_message ip c this packet = (to_station it, w, c') \<Longrightarrow>
     offload_reach ip packet c0 s0 (visited @ [this]) c' it"
| other_offloading:
    "offload_reach ip packet c0 s0 visited c this \<Longrightarrow>
     task_id (to_task packet') \<noteq> task_id (to_task packet) \<Longrightarrow>
     on_offloading_message ip c station packet' = (b, w, c') \<Longrightarrow>
     offload_reach ip packet c0 s0 visited c' this"
| other_dispatching:
    "offload_reach ip packet c0 s0 visited c this \<Longrightarrow>
     on_dispatching_message c station packet' = Inr (w, c') \<Longrightarrow>
     offload_reach ip packet c0 s0 visited c' this"

text \<open>The addresses recorded for a task: the second components of its records.\<close>

definition recorded_for :: "base_station_container \<Rightarrow> string \<Rightarrow> string set" where
  "recorded_for c tid = set (map snd (equal_range (m_dispatching_record c) tid))"

text \<open>
  The lookup of the ledger in the words of the specification (section 4.2): true if and only
  if the station is in the set recorded for the task. \<^verbatim>\<open>dispatched\<close> is the code's lookup
  and returns the opposite value.
\<close>

definition already_tried :: "base_station_container \<Rightarrow> string \<Rightarrow> string \<Rightarrow> bool" where
  "already_tried c tid station_id \<longleftrightarrow> station_id \<in> recorded_for c tid"

text \<open>\<^verbatim>\<open>base_station::dispatched\<close> hands the question to the container.\<close>

definition dispatched_bs :: "base_station_container \<Rightarrow> base_station \<Rightarrow> string \<Rightarrow> string \<Rightarrow> bool" where
  "dispatched_bs c this tid bs_ip = dispatched c tid bs_ip"

text \<open>
  The renderings of station addresses that are not yet recorded for a task: the stations a
  packet of that task can still be forwarded to.
\<close>

definition unrecorded :: "(ipv4 \<Rightarrow> string) \<Rightarrow> base_station_container \<Rightarrow> string \<Rightarrow> string set" where
  "unrecorded ip c tid = (\<lambda>bs. ip (get_address bs)) ` set (m_base_stations c) - recorded_for c tid"

section \<open>The scenarios of the specification\<close>

text \<open>
  Three stations A, B and C with the addresses 10.1.1.1 to 10.1.1.3, the cloud server at
  10.1.2.1, and a formatter that prints these addresses.
\<close>

definition ip_text :: "ipv4 \<Rightarrow> string" where
  "ip_text a =
     (if a = 0x0A010101 then ''10.1.1.1''
      else if a = 0x0A010102 then ''10.1.1.2''
      else if a = 0x0A010103 then ''10.1.1.3''
      else ''0.0.0.0'')"

definition offer1 :: edge_device where
  "offer1 = \<lparr>device_address = 0x0A010111, device_port = 8860,
             free_cpu_cycles = 8, free_memory = 10, price = 50\<rparr>"

definition offer2 :: edge_device where
  "offer2 = \<lparr>device_address = 0x0A010112, device_port = 8860,
             free_cpu_cycles = 20, free_memory = 10, price = 50\<rparr>"

definition task1 :: task where
  "task1 = \<lparr>task_id = ''t1'', needed_cpu_cycles = 10, needed_memory = 5, budget = 100\<rparr>"

definition task2 :: task where
  "task2 = \<lparr>task_id = ''t2'', needed_cpu_cycles = 30, needed_memory = 5, budget = 100\<rparr>"

definition cloud :: "ipv4 \<times> port" where
  "cloud = (0x0A010201, 8860)"

definition station_A :: base_station where
  "station_A = \<lparr>get_address = 0x0A010101, get_port = 8860,
                m_edge_devices = [offer1, offer2], m_cs_address = cloud\<rparr>"

definition station_B :: base_station where
  "station_B = \<lparr>get_address = 0x0A010102, get_port = 8860,
                m_edge_devices = [offer1], m_cs_address = cloud\<rparr>"

definition station_C :: base_station where
  "station_C = \<lparr>get_address = 0x0A010103, get_port = 8860,
                m_edge_devices = [], m_cs_address = cloud\<rparr>"

definition three_stations :: base_station_container where
  "three_stations = \<lparr>m_base_stations = [station_A, station_B, station_C],
                     m_dispatching_record = []\<rparr>"

definition packet1 :: packet where
  "packet1 = \<lparr>msg_type = message_offloading_task, to_task = task1\<rparr>"

definition packet2 :: packet where
  "packet2 = \<lparr>msg_type = message_offloading_task, to_task = task2\<rparr>"

section \<open>Facts about the record and the handlers\<close>

lemma first_fit_find: "first_fit t ds = find (satisfies t) ds"
  by (induction ds) (simp_all add: satisfies_def)

lemma has_free_resource_first_fit: "has_free_resource t ds \<longleftrightarrow> first_fit t ds \<noteq> None"
  by (induction ds) simp_all

lemma dispatched_loop_iff: "dispatched_loop rs bs_ip \<longleftrightarrow> bs_ip \<notin> snd ` set rs"
  by (induction rs) auto

lemma recorded_for_iff: "s \<in> recorded_for c tid \<longleftrightarrow> (tid, s) \<in> set (m_dispatching_record c)"
  by (auto simp: recorded_for_def equal_range_def image_iff)

lemma dispatched_iff: "dispatched c tid s \<longleftrightarrow> s \<notin> recorded_for c tid"
  by (simp add: dispatched_def dispatched_loop_iff recorded_for_def)

lemma recorded_for_dispatching_record:
  "recorded_for (dispatching_record c tid s) tid' =
     (if tid' = tid then insert s (recorded_for c tid') else recorded_for c tid')"
  by (auto simp: recorded_for_iff dispatching_record_def)

lemma recorded_for_erase:
  "recorded_for (erase_dispatching_record c tid) tid' =
     (if tid' = tid then {} else recorded_for c tid')"
  by (auto simp: recorded_for_iff erase_dispatching_record_def)

lemma stations_dispatching_record [simp]:
  "m_base_stations (dispatching_record c tid s) = m_base_stations c"
  by (simp add: dispatching_record_def)

lemma stations_erase [simp]:
  "m_base_stations (erase_dispatching_record c tid) = m_base_stations c"
  by (simp add: erase_dispatching_record_def)

lemma offloading_matched:
  "first_fit (to_task packet) (m_edge_devices this) = Some d \<Longrightarrow>
   on_offloading_message ip c this packet =
     (to_device d,
      [(packet\<lparr>msg_type := message_handling\<rparr>, device_address d, device_port d)],
      erase_dispatching_record c (task_id (to_task packet)))"
  by (simp add: on_offloading_message_def Let_def)

lemma offloading_forward:
  "first_fit (to_task packet) (m_edge_devices this) = None \<Longrightarrow>
   c1 = dispatching_record c (task_id (to_task packet)) (ip (get_address this)) \<Longrightarrow>
   find (\<lambda>bs. dispatched c1 (task_id (to_task packet)) (ip (get_address bs))) (m_base_stations c) = Some it \<Longrightarrow>
   on_offloading_message ip c this packet =
     (to_station it, [(packet, get_address it, get_port it)], c1)"
  by (simp add: on_offloading_message_def Let_def)

lemma offloading_cloud:
  "first_fit (to_task packet) (m_edge_devices this) = None \<Longrightarrow>
   c1 = dispatching_record c (task_id (to_task packet)) (ip (get_address this)) \<Longrightarrow>
   find (\<lambda>bs. dispatched c1 (task_id (to_task packet)) (ip (get_address bs))) (m_base_stations c) = None \<Longrightarrow>
   on_offloading_message ip c this packet =
     (to_cloud,
      [(packet\<lparr>msg_type := message_handling\<rparr>, fst (m_cs_address this), snd (m_cs_address this))],
      erase_dispatching_record c1 (task_id (to_task packet)))"
  by (simp add: on_offloading_message_def Let_def)

lemma offloading_to_station:
  assumes "on_offloading_message ip c this packet = (to_station it, w, c')"
  shows "first_fit (to_task packet) (m_edge_devices this) = None"
    and "c' = dispatching_record c (task_id (to_task packet)) (ip (get_address this))"
    and "find (\<lambda>bs. dispatched c' (task_id (to_task packet)) (ip (get_address bs))) (m_base_stations c) = Some it"
    and "w = [(packet, get_address it, get_port it)]"
  using assms by (auto simp: on_offloading_message_def Let_def split: option.splits)

lemma offloading_resolved:
  assumes "on_offloading_message ip c this packet = (b, w, c')" and "resolved b"
  shows "\<exists>c1. c' = erase_dispatching_record c1 (task_id (to_task packet))"
  using assms by (auto simp: on_offloading_message_def Let_def split: option.splits)

lemma offloading_stations:
  "on_offloading_message ip c this packet = (b, w, c') \<Longrightarrow> m_base_stations c' = m_base_stations c"
  by (auto simp: on_offloading_message_def Let_def split: option.splits)

lemma offloading_other_task:
  "on_offloading_message ip c this packet = (b, w, c') \<Longrightarrow> task_id (to_task packet) \<noteq> tid \<Longrightarrow>
   recorded_for c' tid = recorded_for c tid"
  by (auto simp: on_offloading_message_def Let_def recorded_for_erase recorded_for_dispatching_record
      split: option.splits)

lemma dispatching_container:
  "on_dispatching_message c this packet = Inr (w, c') \<Longrightarrow> c' = c"
  by (auto simp: on_dispatching_message_def Let_def split: option.splits)

lemma get_device_0: "get_device devices 0 = None \<longleftrightarrow> devices = []"
  by (simp add: get_device_def)

lemma dispatching_no_device:
  "m_edge_devices this = [] \<Longrightarrow> on_dispatching_message c this packet = Inl device_0_missing"
  by (simp add: on_dispatching_message_def get_device_def)

lemma dispatching_matched:
  "first_fit (to_task packet) (m_edge_devices this) = Some d \<Longrightarrow>
   on_dispatching_message c this packet =
     Inr ([(packet\<lparr>msg_type := message_handling\<rparr>, device_address d, device_port d),
           (packet\<lparr>msg_type := message_dispatching_success\<rparr>,
              fst (m_cs_address this), snd (m_cs_address this))], c)"
  by (cases "m_edge_devices this") (simp_all add: on_dispatching_message_def get_device_def Let_def)

lemma dispatching_unmatched:
  "m_edge_devices this \<noteq> [] \<Longrightarrow> first_fit (to_task packet) (m_edge_devices this) = None \<Longrightarrow>
   on_dispatching_message c this packet =
     Inr ([(packet\<lparr>msg_type := message_dispatching_failure\<rparr>,
              fst (m_cs_address this), snd (m_cs_address this))], c)"
  by (simp add: on_dispatching_message_def get_device_def Let_def)

lemma offloading_resolved_written:
  assumes "on_offloading_message ip c this packet = (b, w, c')" and "resolved b"
  shows "(\<exists>d. b = to_device d \<and> first_fit (to_task packet) (m_edge_devices this) = Some d \<and>
            w = [(packet\<lparr>msg_type := message_handling\<rparr>, device_address d, device_port d)])
       \<or> (b = to_cloud \<and> first_fit (to_task packet) (m_edge_devices this) = None \<and>
            w = [(packet\<lparr>msg_type := message_handling\<rparr>,
                    fst (m_cs_address this), snd (m_cs_address this))])"
  using assms by (auto simp: on_offloading_message_def Let_def split: option.splits)

lemma get_out_of_range_iff: "get c i = Inl out_of_range \<longleftrightarrow> i > size_bs c"
  by (simp add: get_def)

lemma count_funpow_record:
  "count_list (m_dispatching_record (((\<lambda>c. dispatching_record c tid bs_ip) ^^ k) c)) (tid, bs_ip)
     = count_list (m_dispatching_record c) (tid, bs_ip) + k"
  by (induction k) (simp_all add: dispatching_record_def)

lemma offload_run_resolved:
  "offload_run ip packet n c this = Some (path, b, w, c') \<Longrightarrow>
   resolved b \<and> recorded_for c' (task_id (to_task packet)) = {} \<and> length path \<le> n"
proof (induction n arbitrary: c this path)
  case 0
  then show ?case by simp
next
  case (Suc n)
  obtain b1 w1 c1 where step: "on_offloading_message ip c this packet = (b1, w1, c1)"
    by (cases "on_offloading_message ip c this packet") auto
  show ?case
  proof (cases "resolved b1")
    case True
    with step Suc.prems have "b = b1" "c' = c1" "path = [this]"
      by (cases b1; simp)+
    with True offloading_resolved[OF step True] show ?thesis
      by (auto simp: recorded_for_erase)
  next
    case False
    then obtain it where "b1 = to_station it" by (cases b1) auto
    with step Suc.prems obtain path' where
      "offload_run ip packet n c1 it = Some (path', b, w, c')" "path = this # path'"
      by (auto split: option.splits)
    with Suc.IH[of c1 it path'] show ?thesis by simp
  qed
qed

lemma offload_run_last:
  "offload_run ip packet n c this = Some (path, b, w, c') \<Longrightarrow>
   path \<noteq> [] \<and> hd path = this \<and> set (tl path) \<subseteq> set (m_base_stations c) \<and>
   (\<exists>c_last. on_offloading_message ip c_last (last path) packet = (b, w, c'))"
proof (induction n arbitrary: c this path)
  case 0
  then show ?case by simp
next
  case (Suc n)
  obtain b1 w1 c1 where step: "on_offloading_message ip c this packet = (b1, w1, c1)"
    by (cases "on_offloading_message ip c this packet") auto
  show ?case
  proof (cases "resolved b1")
    case True
    with step Suc.prems have "b = b1" "w = w1" "c' = c1" "path = [this]"
      by (cases b1; simp)+
    with step show ?thesis by auto
  next
    case False
    then obtain it where it: "b1 = to_station it" by (cases b1) auto
    with step Suc.prems obtain path' where
      run: "offload_run ip packet n c1 it = Some (path', b, w, c')" and path: "path = this # path'"
      by (auto split: option.splits)
    from step it have fwd: "on_offloading_message ip c this packet = (to_station it, w1, c1)"
      by simp
    have st: "m_base_stations c1 = m_base_stations c"
      using fwd by (rule offloading_stations)
    from offloading_to_station(3)[OF fwd] have mem: "it \<in> set (m_base_stations c)"
      by (auto simp: find_Some_iff)
    from Suc.IH[OF run] have ih: "path' \<noteq> []" "hd path' = it"
      "set (tl path') \<subseteq> set (m_base_stations c)"
      "\<exists>c_last. on_offloading_message ip c_last (last path') packet = (b, w, c')"
      by (simp_all add: st)
    from ih(1,2) have "set path' = insert it (set (tl path'))"
      by (cases path') auto
    with ih mem path show ?thesis by auto
  qed
qed

lemma reach_visited_recorded:
  "offload_reach ip packet c0 s0 visited c this \<Longrightarrow>
   v \<in> set visited \<Longrightarrow> ip (get_address v) \<in> recorded_for c (task_id (to_task packet))"
proof (induction rule: offload_reach.induct)
  case arrived
  then show ?case by simp
next
  case (forwarded visited c this it w c')
  from offloading_to_station(2)[OF forwarded.hyps(2)] forwarded.IH forwarded.prems
  show ?case by (auto simp: recorded_for_dispatching_record)
next
  case (other_offloading visited c this packet' station b w c')
  from offloading_other_task[OF other_offloading.hyps(3) other_offloading.hyps(2)]
    other_offloading.IH other_offloading.prems
  show ?case by simp
next
  case (other_dispatching visited c this station packet' w c')
  from dispatching_container[OF other_dispatching.hyps(2)] other_dispatching.IH
    other_dispatching.prems
  show ?case by simp
qed

lemma finite_unrecorded: "finite (unrecorded ip c tid)"
  by (simp add: unrecorded_def)

lemma card_unrecorded_le: "card (unrecorded ip c tid) \<le> length (m_base_stations c)"
proof -
  have "card (unrecorded ip c tid) \<le> card ((\<lambda>bs. ip (get_address bs)) ` set (m_base_stations c))"
    unfolding unrecorded_def by (intro card_mono) auto
  also have "\<dots> \<le> card (set (m_base_stations c))"
    by (rule card_image_le) simp
  also have "\<dots> \<le> length (m_base_stations c)"
    by (rule card_length)
  finally show ?thesis .
qed

lemma forward_target_unrecorded:
  assumes "on_offloading_message ip c this packet = (to_station it, w, c')"
  shows "ip (get_address it) \<in> unrecorded ip c' (task_id (to_task packet))"
    and "unrecorded ip c' (task_id (to_task packet))
           = unrecorded ip c (task_id (to_task packet)) - {ip (get_address this)}"
proof -
  let ?tid = "task_id (to_task packet)"
  note f = offloading_to_station[OF assms]
  from f(3) have "it \<in> set (m_base_stations c)" "dispatched c' ?tid (ip (get_address it))"
    by (auto simp: find_Some_iff)
  moreover have st: "m_base_stations c' = m_base_stations c"
    using assms by (rule offloading_stations)
  ultimately show "ip (get_address it) \<in> unrecorded ip c' ?tid"
    by (auto simp: unrecorded_def dispatched_iff)
  show "unrecorded ip c' ?tid = unrecorded ip c ?tid - {ip (get_address this)}"
    unfolding unrecorded_def st by (subst f(2)) (auto simp: recorded_for_dispatching_record)
qed

lemma offload_run_bound:
  "ip (get_address this) \<in> unrecorded ip c (task_id (to_task packet)) \<Longrightarrow>
   card (unrecorded ip c (task_id (to_task packet))) \<le> n \<Longrightarrow>
   \<exists>r. offload_run ip packet n c this = Some r"
proof (induction n arbitrary: c this)
  case 0
  then show ?case using finite_unrecorded[of ip c "task_id (to_task packet)"] by auto
next
  case (Suc n)
  let ?tid = "task_id (to_task packet)"
  obtain b w c' where step: "on_offloading_message ip c this packet = (b, w, c')"
    by (cases "on_offloading_message ip c this packet") auto
  show ?case
  proof (cases b)
    case (to_device d)
    with step show ?thesis by simp
  next
    case to_cloud
    with step show ?thesis by simp
  next
    case (to_station it)
    with step have fwd: "on_offloading_message ip c this packet = (to_station it, w, c')" by simp
    have mem: "ip (get_address it) \<in> unrecorded ip c' ?tid"
      and eq: "unrecorded ip c' ?tid = unrecorded ip c ?tid - {ip (get_address this)}"
      using forward_target_unrecorded[OF fwd] by blast+
    have "card (unrecorded ip c' ?tid) = card (unrecorded ip c ?tid) - 1"
      unfolding eq using Suc.prems(1) by (simp add: finite_unrecorded)
    with Suc.prems(2) have "card (unrecorded ip c' ?tid) \<le> n" by simp
    from Suc.IH[OF mem this] obtain path b' w' c'' where
      "offload_run ip packet n c' it = Some (path, b', w', c'')"
      by (metis prod_cases4)
    with fwd show ?thesis by simp
  qed
qed

lemma offload_run_enough:
  "\<exists>r. offload_run ip packet (length (m_base_stations c) + 1) c this = Some r"
proof -
  let ?tid = "task_id (to_task packet)"
  obtain b w c' where step: "on_offloading_message ip c this packet = (b, w, c')"
    by (cases "on_offloading_message ip c this packet") auto
  show ?thesis
  proof (cases b)
    case (to_device d)
    with step show ?thesis by simp
  next
    case to_cloud
    with step show ?thesis by simp
  next
    case (to_station it)
    with step have fwd: "on_offloading_message ip c this packet = (to_station it, w, c')" by simp
    have mem: "ip (get_address it) \<in> unrecorded ip c' ?tid"
      using forward_target_unrecorded[OF fwd] by blast
    have "card (unrecorded ip c' ?tid) \<le> length (m_base_stations c')"
      by (rule card_unrecorded_le)
    also have "\<dots> = length (m_base_stations c)"
      using fwd by (simp add: offloading_stations)
    finally have "card (unrecorded ip c' ?tid) \<le> length (m_base_stations c)" .
    from offload_run_bound[OF mem this] obtain path b' w' c'' where
      "offload_run ip packet (length (m_base_stations c)) c' it = Some (path, b', w', c'')"
      by (metis prod_cases4)
    with fwd show ?thesis by simp
  qed
qed

text \<open>The scenarios, evaluated.\<close>

lemmas scenario_defs =
  three_stations_def station_A_def station_B_def station_C_def cloud_def
  packet1_def packet2_def task1_def task2_def offer1_def offer2_def ip_text_def

lemmas handler_defs =
  on_offloading_message_def Let_def dispatching_record_def erase_dispatching_record_def
  dispatched_def equal_range_def

lemma step_A:
  "on_offloading_message ip_text three_stations station_A packet2 =
     (to_station station_B, [(packet2, get_address station_B, get_port station_B)],
      dispatching_record three_stations ''t2'' ''10.1.1.1'')"
  by (simp add: handler_defs scenario_defs)

lemma step_B:
  "on_offloading_message ip_text (dispatching_record three_stations ''t2'' ''10.1.1.1'') station_B packet2 =
     (to_station station_C, [(packet2, get_address station_C, get_port station_C)],
      dispatching_record (dispatching_record three_stations ''t2'' ''10.1.1.1'') ''t2'' ''10.1.1.2'')"
  by (simp add: handler_defs scenario_defs)

lemma step_C:
  "on_offloading_message ip_text
     (dispatching_record (dispatching_record three_stations ''t2'' ''10.1.1.1'') ''t2'' ''10.1.1.2'')
     station_C packet2 =
     (to_cloud, [(packet2\<lparr>msg_type := message_handling\<rparr>, fst cloud, snd cloud)], three_stations)"
  by (simp add: handler_defs scenario_defs)

lemma run_A:
  "offload_run ip_text packet2 4 three_stations station_A =
     Some ([station_A, station_B, station_C], to_cloud,
           [(packet2\<lparr>msg_type := message_handling\<rparr>, fst cloud, snd cloud)], three_stations)"
  by (simp add: numeral_eq_Suc step_A step_B step_C)

section \<open>The matcher\<close>

text \<open>
  Claim C2. For every task and every sequence of offers, the matcher selects the first offer,
  in the order of the input, whose free cycles exceed the needed cycles, whose free memory
  exceeds the needed memory and whose price is at most the budget; it reports no match
  exactly when no offer passes all three tests, and \<^verbatim>\<open>has_free_resource\<close> answers whether
  there is a match. An offer whose price equals the budget is accepted; an offer whose free
  cycles equal the needed cycles is never selected.
\<close>

theorem first_fit_correct:
  "(first_fit t offers = Some d \<longleftrightarrow>
      (\<exists>i < length offers. offers ! i = d \<and> satisfies t d \<and>
         (\<forall>j < i. \<not> satisfies t (offers ! j))))
   \<and> (first_fit t offers = None \<longleftrightarrow> (\<forall>d' \<in> set offers. \<not> satisfies t d'))
   \<and> (has_free_resource t offers \<longleftrightarrow> first_fit t offers \<noteq> None)
   \<and> (free_cpu_cycles d > needed_cpu_cycles t \<and> free_memory d > needed_memory t \<and>
        price d = budget t \<longrightarrow> first_fit t (d # offers) = Some d)
   \<and> (free_cpu_cycles d = needed_cpu_cycles t \<longrightarrow> first_fit t offers \<noteq> Some d)"
proof (intro conjI)
  show first: "first_fit t offers = Some d \<longleftrightarrow>
      (\<exists>i < length offers. offers ! i = d \<and> satisfies t d \<and>
         (\<forall>j < i. \<not> satisfies t (offers ! j)))"
    unfolding first_fit_find find_Some_iff by auto
  show "first_fit t offers = None \<longleftrightarrow> (\<forall>d' \<in> set offers. \<not> satisfies t d')"
    unfolding first_fit_find find_None_iff by auto
  show "has_free_resource t offers \<longleftrightarrow> first_fit t offers \<noteq> None"
    by (rule has_free_resource_first_fit)
  show "free_cpu_cycles d > needed_cpu_cycles t \<and> free_memory d > needed_memory t \<and>
        price d = budget t \<longrightarrow> first_fit t (d # offers) = Some d"
    by simp
  show "free_cpu_cycles d = needed_cpu_cycles t \<longrightarrow> first_fit t offers \<noteq> Some d"
    unfolding first by (auto simp: satisfies_def)
qed

theorem first_fit_correct_witness:
  "first_fit task1 [offer1, offer2] = Some offer2 \<and> \<not> satisfies task1 offer1
   \<and> has_free_resource task1 [offer1, offer2]
   \<and> first_fit (task1\<lparr>budget := 50\<rparr>) [offer2, offer1] = Some offer2
   \<and> first_fit (task1\<lparr>needed_cpu_cycles := 20\<rparr>) [offer1, offer2] = None"
proof -
  have sat: "satisfies task1 offer2" "\<not> satisfies task1 offer1"
    by (simp_all add: satisfies_def task1_def offer1_def offer2_def)
  have "\<exists>i < length [offer1, offer2]. [offer1, offer2] ! i = offer2 \<and> satisfies task1 offer2 \<and>
         (\<forall>j < i. \<not> satisfies task1 ([offer1, offer2] ! j))"
    using sat by (intro exI[of _ 1]) simp
  then have sel: "first_fit task1 [offer1, offer2] = Some offer2"
    using first_fit_correct[of task1 "[offer1, offer2]" offer2] by blast
  then have has: "has_free_resource task1 [offer1, offer2]"
    using first_fit_correct[of task1 "[offer1, offer2]" offer2]
    by (simp del: first_fit.simps has_free_resource.simps)
  have eq: "first_fit (task1\<lparr>budget := 50\<rparr>) [offer2, offer1] = Some offer2"
    using first_fit_correct[of "task1\<lparr>budget := 50\<rparr>" "[offer1]" offer2]
    by (simp add: task1_def offer2_def)
  have "\<forall>d' \<in> set [offer1, offer2]. \<not> satisfies (task1\<lparr>needed_cpu_cycles := 20\<rparr>) d'"
    by (simp add: satisfies_def task1_def offer1_def offer2_def)
  then have none: "first_fit (task1\<lparr>needed_cpu_cycles := 20\<rparr>) [offer1, offer2] = None"
    using first_fit_correct[of "task1\<lparr>needed_cpu_cycles := 20\<rparr>" "[offer1, offer2]" offer2] by blast
  show ?thesis using sel sat has eq none by simp
qed

section \<open>The dispatching record\<close>

text \<open>
  Claim C4, as stated: the lookup \<^verbatim>\<open>dispatched\<close> returns true if and only if the station is
  among the addresses recorded for the task. It does not: once 10.1.1.1 is recorded for
  task t2, the lookup for that pair returns false.
\<close>

theorem dispatched_counterexample:
  "\<not> (dispatched (dispatching_record three_stations ''t2'' ''10.1.1.1'') ''t2'' ''10.1.1.1''
       \<longleftrightarrow> ''10.1.1.1'' \<in> recorded_for (dispatching_record three_stations ''t2'' ''10.1.1.1'') ''t2'')"
  by (simp add: dispatched_def recorded_for_def equal_range_def dispatching_record_def three_stations_def)

text \<open>
  Claim C4, amended. For every task id and station address, \<^verbatim>\<open>dispatched\<close> returns true if
  and only if the address is not among those recorded for the task: it returns false on
  the first record of the task that carries the address and true after a walk that finds
  none. \<^verbatim>\<open>base_station::dispatched\<close> returns what the container returns.
\<close>

theorem dispatched_not_recorded:
  "(dispatched c tid bs_ip \<longleftrightarrow> bs_ip \<notin> recorded_for c tid)
   \<and> dispatched_bs c this tid bs_ip = dispatched c tid bs_ip"
  by (simp add: dispatched_iff dispatched_bs_def)

text \<open>
  Claim C5, as stated: recording is idempotent, the address appears at most once among the
  records of the task and a repeated record leaves the state unchanged. It is not:
  recording 10.1.1.1 for task t2 twice leaves two such records, and the state after the
  second call differs from the state after the first.
\<close>

theorem dispatching_record_counterexample:
  "count_list (map snd (equal_range (m_dispatching_record
       (dispatching_record (dispatching_record three_stations ''t2'' ''10.1.1.1'') ''t2'' ''10.1.1.1''))
       ''t2'')) ''10.1.1.1'' = 2
   \<and> dispatching_record (dispatching_record three_stations ''t2'' ''10.1.1.1'') ''t2'' ''10.1.1.1''
       \<noteq> dispatching_record three_stations ''t2'' ''10.1.1.1''"
  by (simp add: equal_range_def dispatching_record_def three_stations_def)

text \<open>
  Claim C5, amended. Every call of \<^verbatim>\<open>dispatching_record\<close> adds one record: after \<open>k\<close> calls
  for the same task id and station address the pair occurs \<open>k\<close> times more than before. A
  repeated record changes neither the set of addresses recorded for any task nor any
  answer of the lookup \<^verbatim>\<open>dispatched\<close>.
\<close>

theorem dispatching_record_repeated:
  "count_list (m_dispatching_record (((\<lambda>c. dispatching_record c tid bs_ip) ^^ k) c)) (tid, bs_ip)
     = count_list (m_dispatching_record c) (tid, bs_ip) + k
   \<and> recorded_for (dispatching_record (dispatching_record c tid bs_ip) tid bs_ip) tid'
     = recorded_for (dispatching_record c tid bs_ip) tid'
   \<and> dispatched (dispatching_record (dispatching_record c tid bs_ip) tid bs_ip) tid' bs_ip'
     = dispatched (dispatching_record c tid bs_ip) tid' bs_ip'"
  by (simp add: count_funpow_record dispatched_iff recorded_for_dispatching_record)

section \<open>Indexed access\<close>

text \<open>
  Claim C8 says that indexed access raises the out-of-range error if and only if the index
  is at least the size. \<^verbatim>\<open>CHECK_INDEX\<close> compares with \<^verbatim>\<open>>\<close>, so the index equal to the size
  passes the check: in a container of three stations index 3 is not refused but read past
  the end of the vector, by \<^verbatim>\<open>get\<close> and by both operators; index 2 yields the third
  station and index 4 is refused.
\<close>

theorem get_at_size:
  "get three_stations 3 = Inl read_past_the_end
   \<and> get three_stations 2 = Inr station_C
   \<and> get three_stations 4 = Inl out_of_range
   \<and> operator_subscript three_stations 3 = Inl read_past_the_end
   \<and> operator_call three_stations 3 = Inl read_past_the_end"
  by (simp add: get_def operator_subscript_def operator_call_def size_bs_def three_stations_def)

section \<open>The request handler\<close>

text \<open>
  Claim C9 says that \<^verbatim>\<open>on_dispatching_message\<close> writes a handling message to the matched
  device and a dispatching-success message to the cloud address when an offer matches, and
  a dispatching-failure message to the cloud address when none does, without touching the
  record and without writing to a station. The handler does so for every station that has
  a device: when the device at position \<open>i\<close> is the first whose offer satisfies the task it
  writes these two packets and nothing else, when no offer satisfies the task it writes the
  one failure packet, and the container is left as it was. On a station without devices no
  offer matches either, but the handler fails in its first statement, which reads the
  address of device 0, and writes nothing.
\<close>

theorem dispatching_message_branches:
  "(m_edge_devices this = [] \<longrightarrow>
      on_dispatching_message c this packet = Inl device_0_missing)
   \<and> (\<forall>i < length (m_edge_devices this).
      satisfies (to_task packet) (m_edge_devices this ! i) \<and>
      (\<forall>j < i. \<not> satisfies (to_task packet) (m_edge_devices this ! j)) \<longrightarrow>
      on_dispatching_message c this packet =
        Inr ([(packet\<lparr>msg_type := message_handling\<rparr>,
                 device_address (m_edge_devices this ! i), device_port (m_edge_devices this ! i)),
              (packet\<lparr>msg_type := message_dispatching_success\<rparr>,
                 fst (m_cs_address this), snd (m_cs_address this))], c))
   \<and> (m_edge_devices this \<noteq> [] \<and>
       (\<forall>d \<in> set (m_edge_devices this). \<not> satisfies (to_task packet) d) \<longrightarrow>
      on_dispatching_message c this packet =
        Inr ([(packet\<lparr>msg_type := message_dispatching_failure\<rparr>,
                 fst (m_cs_address this), snd (m_cs_address this))], c))"
proof -
  have empty: "on_dispatching_message c this packet = Inl device_0_missing"
    if "m_edge_devices this = []"
    using that by (rule dispatching_no_device)
  have matched: "on_dispatching_message c this packet =
        Inr ([(packet\<lparr>msg_type := message_handling\<rparr>,
                 device_address (m_edge_devices this ! i), device_port (m_edge_devices this ! i)),
              (packet\<lparr>msg_type := message_dispatching_success\<rparr>,
                 fst (m_cs_address this), snd (m_cs_address this))], c)"
    if "i < length (m_edge_devices this)"
      "satisfies (to_task packet) (m_edge_devices this ! i) \<and>
       (\<forall>j < i. \<not> satisfies (to_task packet) (m_edge_devices this ! j))" for i
  proof -
    from that have "first_fit (to_task packet) (m_edge_devices this) = Some (m_edge_devices this ! i)"
      unfolding first_fit_find find_Some_iff by blast
    then show ?thesis by (rule dispatching_matched)
  qed
  have unmatched: "on_dispatching_message c this packet =
        Inr ([(packet\<lparr>msg_type := message_dispatching_failure\<rparr>,
                 fst (m_cs_address this), snd (m_cs_address this))], c)"
    if "m_edge_devices this \<noteq> [] \<and>
        (\<forall>d \<in> set (m_edge_devices this). \<not> satisfies (to_task packet) d)"
  proof -
    from that have "first_fit (to_task packet) (m_edge_devices this) = None"
      unfolding first_fit_find find_None_iff by blast
    with that show ?thesis by (intro dispatching_unmatched) simp_all
  qed
  from empty matched unmatched show ?thesis by blast
qed

theorem dispatching_message_branches_witness:
  "on_dispatching_message three_stations station_C packet1 = Inl device_0_missing
   \<and> on_dispatching_message three_stations station_A packet1 =
     Inr ([(packet1\<lparr>msg_type := message_handling\<rparr>, device_address offer2, device_port offer2),
           (packet1\<lparr>msg_type := message_dispatching_success\<rparr>, fst cloud, snd cloud)],
          three_stations)
   \<and> on_dispatching_message three_stations station_B packet1 =
     Inr ([(packet1\<lparr>msg_type := message_dispatching_failure\<rparr>, fst cloud, snd cloud)],
          three_stations)"
proof -
  have e: "m_edge_devices station_C = []"
    by (simp add: station_C_def)
  have a: "(1::nat) < length (m_edge_devices station_A)"
    "satisfies (to_task packet1) (m_edge_devices station_A ! 1) \<and>
     (\<forall>j < (1::nat). \<not> satisfies (to_task packet1) (m_edge_devices station_A ! j))"
    by (simp_all add: satisfies_def scenario_defs)
  have b: "m_edge_devices station_B \<noteq> [] \<and>
           (\<forall>d \<in> set (m_edge_devices station_B). \<not> satisfies (to_task packet1) d)"
    by (simp add: satisfies_def scenario_defs)
  have da: "m_edge_devices station_A ! 1 = offer2" "m_cs_address station_A = cloud"
    "m_cs_address station_B = cloud"
    by (simp_all add: station_A_def station_B_def)
  note failed =
    dispatching_message_branches[of station_C three_stations packet1, THEN conjunct1, THEN mp, OF e]
  note matched =
    dispatching_message_branches[of station_A three_stations packet1,
      THEN conjunct2, THEN conjunct1, rule_format, OF a]
  note unmatched =
    dispatching_message_branches[of station_B three_stations packet1,
      THEN conjunct2, THEN conjunct2, THEN mp, OF b]
  show ?thesis
    using failed matched unmatched unfolding da by (intro conjI)
qed

section \<open>The offloading handler\<close>

text \<open>
  Claim C3. In \<^verbatim>\<open>on_offloading_message\<close>, when no offer of the station satisfies the task,
  the station (a) adds the record of its own address under the task's id; (b) walks the
  stations of the container in their order and writes the packet it received, unchanged,
  to the first station whose address is not recorded for the task, leaving the record as
  extended in (a); and (d) when every station is recorded, writes a handling message to the
  cloud address and erases the records of the task, after which none is left.
\<close>

theorem offloading_unmatched:
  assumes "\<forall>d \<in> set (m_edge_devices this). \<not> satisfies (to_task packet) d"
  shows "let tid = task_id (to_task packet);
             c1 = dispatching_record c tid (ip (get_address this));
             bss = m_base_stations c
         in m_dispatching_record c1 = m_dispatching_record c @ [(tid, ip (get_address this))]
          \<and> (\<forall>i < length bss.
                ip (get_address (bss ! i)) \<notin> recorded_for c1 tid \<and>
                (\<forall>j < i. ip (get_address (bss ! j)) \<in> recorded_for c1 tid) \<longrightarrow>
                on_offloading_message ip c this packet =
                  (to_station (bss ! i), [(packet, get_address (bss ! i), get_port (bss ! i))], c1))
          \<and> ((\<forall>bs \<in> set bss. ip (get_address bs) \<in> recorded_for c1 tid) \<longrightarrow>
                on_offloading_message ip c this packet =
                  (to_cloud,
                   [(packet\<lparr>msg_type := message_handling\<rparr>,
                       fst (m_cs_address this), snd (m_cs_address this))],
                   erase_dispatching_record c1 tid)
                \<and> recorded_for (erase_dispatching_record c1 tid) tid = {})"
proof -
  let ?tid = "task_id (to_task packet)"
  let ?c1 = "dispatching_record c ?tid (ip (get_address this))"
  let ?bss = "m_base_stations c"
  let ?P = "\<lambda>bs. dispatched ?c1 ?tid (ip (get_address bs))"
  from assms have none: "first_fit (to_task packet) (m_edge_devices this) = None"
    unfolding first_fit_find find_None_iff by blast
  have a: "m_dispatching_record ?c1 = m_dispatching_record c @ [(?tid, ip (get_address this))]"
    by (simp add: dispatching_record_def)
  have b: "on_offloading_message ip c this packet =
             (to_station (?bss ! i), [(packet, get_address (?bss ! i), get_port (?bss ! i))], ?c1)"
    if "i < length ?bss" "ip (get_address (?bss ! i)) \<notin> recorded_for ?c1 ?tid"
      "\<forall>j < i. ip (get_address (?bss ! j)) \<in> recorded_for ?c1 ?tid" for i
  proof -
    from that have "find ?P ?bss = Some (?bss ! i)"
      unfolding find_Some_iff dispatched_iff by blast
    with none show ?thesis by (rule offloading_forward[OF _ refl])
  qed
  have d: "on_offloading_message ip c this packet =
             (to_cloud,
              [(packet\<lparr>msg_type := message_handling\<rparr>,
                  fst (m_cs_address this), snd (m_cs_address this))],
              erase_dispatching_record ?c1 ?tid)"
    if "\<forall>bs \<in> set ?bss. ip (get_address bs) \<in> recorded_for ?c1 ?tid"
  proof -
    from that have "find ?P ?bss = None"
      unfolding find_None_iff dispatched_iff by blast
    with none show ?thesis by (rule offloading_cloud[OF _ refl])
  qed
  have e: "recorded_for (erase_dispatching_record ?c1 ?tid) ?tid = {}"
    by (simp add: recorded_for_erase)
  show ?thesis
    unfolding Let_def using a b d e by blast
qed

theorem offloading_unmatched_witness:
  "on_offloading_message ip_text three_stations station_A packet2 =
     (to_station station_B, [(packet2, get_address station_B, get_port station_B)],
      dispatching_record three_stations ''t2'' ''10.1.1.1'')
   \<and> m_dispatching_record (dispatching_record three_stations ''t2'' ''10.1.1.1'') = [(''t2'', ''10.1.1.1'')]
   \<and> on_offloading_message ip_text
       (dispatching_record (dispatching_record three_stations ''t2'' ''10.1.1.1'') ''t2'' ''10.1.1.2'')
       station_C packet2 =
     (to_cloud, [(packet2\<lparr>msg_type := message_handling\<rparr>, fst cloud, snd cloud)], three_stations)"
proof -
  let ?c2 = "dispatching_record (dispatching_record three_stations ''t2'' ''10.1.1.1'') ''t2'' ''10.1.1.2''"
  have tid: "task_id (to_task packet2) = ''t2''"
    and ips: "ip_text (get_address station_A) = ''10.1.1.1''"
      "ip_text (get_address station_B) = ''10.1.1.2''"
      "ip_text (get_address station_C) = ''10.1.1.3''"
    and sts: "m_base_stations three_stations = [station_A, station_B, station_C]"
      "m_dispatching_record three_stations = []"
    and cs: "m_cs_address station_C = cloud"
    by (simp_all add: scenario_defs)
  have no_A: "\<forall>d \<in> set (m_edge_devices station_A). \<not> satisfies (to_task packet2) d"
    and no_C: "\<forall>d \<in> set (m_edge_devices station_C). \<not> satisfies (to_task packet2) d"
    by (simp_all add: satisfies_def scenario_defs)
  have empty: "recorded_for three_stations ''t2'' = {}"
    by (simp add: recorded_for_def equal_range_def sts)
  note at_A = offloading_unmatched[OF no_A, where ip = ip_text and c = three_stations, unfolded Let_def tid ips sts]
  note at_C = offloading_unmatched[OF no_C, where ip = ip_text and c = ?c2, unfolded Let_def tid ips cs]
  have rec: "m_dispatching_record (dispatching_record three_stations ''t2'' ''10.1.1.1'') = [(''t2'', ''10.1.1.1'')]"
    using at_A by (simp add: sts)
  have "(1::nat) < length [station_A, station_B, station_C]"
    "ip_text (get_address ([station_A, station_B, station_C] ! 1))
        \<notin> recorded_for (dispatching_record three_stations ''t2'' ''10.1.1.1'') ''t2''
     \<and> (\<forall>j < (1::nat). ip_text (get_address ([station_A, station_B, station_C] ! j))
        \<in> recorded_for (dispatching_record three_stations ''t2'' ''10.1.1.1'') ''t2'')"
    by (simp_all add: recorded_for_dispatching_record empty ips)
  with at_A have fwd: "on_offloading_message ip_text three_stations station_A packet2 =
     (to_station ([station_A, station_B, station_C] ! 1),
      [(packet2, get_address ([station_A, station_B, station_C] ! 1),
        get_port ([station_A, station_B, station_C] ! 1))],
      dispatching_record three_stations ''t2'' ''10.1.1.1'')"
    by blast
  have "\<forall>bs \<in> set (m_base_stations ?c2).
          ip_text (get_address bs) \<in> recorded_for (dispatching_record ?c2 ''t2'' ''10.1.1.3'') ''t2''"
    by (simp add: recorded_for_dispatching_record sts ips)
  with at_C have "on_offloading_message ip_text ?c2 station_C packet2 =
     (to_cloud, [(packet2\<lparr>msg_type := message_handling\<rparr>, fst cloud, snd cloud)],
      erase_dispatching_record (dispatching_record ?c2 ''t2'' ''10.1.1.3'') ''t2'')"
    by blast
  moreover have "erase_dispatching_record (dispatching_record ?c2 ''t2'' ''10.1.1.3'') ''t2'' = three_stations"
    by (simp add: erase_dispatching_record_def dispatching_record_def three_stations_def)
  ultimately show ?thesis using fwd rec by simp
qed

text \<open>
  Claim C10. A station never forwards an offloading packet to itself: when the handler
  forwards to a station, its own address has been recorded for the task before the walk,
  the station chosen is one of the container whose address is not recorded, so its address
  differs from the handler's own, and the one packet written goes to it.
\<close>

theorem never_forwards_to_itself:
  assumes "on_offloading_message ip c this packet = (to_station it, w, c')"
  shows "ip (get_address this) \<in> recorded_for c' (task_id (to_task packet))
       \<and> it \<in> set (m_base_stations c)
       \<and> ip (get_address it) \<notin> recorded_for c' (task_id (to_task packet))
       \<and> get_address it \<noteq> get_address this \<and> it \<noteq> this
       \<and> w = [(packet, get_address it, get_port it)]"
proof -
  let ?tid = "task_id (to_task packet)"
  note f = offloading_to_station[OF assms]
  have self: "ip (get_address this) \<in> recorded_for c' ?tid"
    by (subst f(2)) (simp add: recorded_for_dispatching_record)
  from f(3) have it: "it \<in> set (m_base_stations c)" "ip (get_address it) \<notin> recorded_for c' ?tid"
    by (auto simp: find_Some_iff dispatched_iff)
  with self have "get_address it \<noteq> get_address this" by auto
  with self it f(4) show ?thesis by auto
qed

theorem never_forwards_to_itself_witness:
  "on_offloading_message ip_text three_stations station_A packet2 =
     (to_station station_B, [(packet2, get_address station_B, get_port station_B)],
      dispatching_record three_stations ''t2'' ''10.1.1.1'')
   \<and> get_address station_B \<noteq> get_address station_A \<and> station_B \<noteq> station_A"
  using never_forwards_to_itself[OF step_A] step_A by simp

text \<open>
  Claim C6. Every way out of \<^verbatim>\<open>on_offloading_message\<close> that resolves a task, the matched
  device and the cloud server, erases the records of the task: afterwards the record holds
  nothing under its id, so \<open>already_tried\<close> is false for every station, and \<^verbatim>\<open>dispatched\<close>
  gives its answer for a station that is not recorded. The same holds at the end of every
  run of the packet through the stations.
\<close>

theorem resolved_clears_record:
  "(on_offloading_message ip c this packet = (b, w, c') \<and> resolved b \<longrightarrow>
      recorded_for c' (task_id (to_task packet)) = {}
      \<and> (\<forall>station_id. \<not> already_tried c' (task_id (to_task packet)) station_id)
      \<and> (\<forall>station_id. dispatched c' (task_id (to_task packet)) station_id))
   \<and> (offload_run ip packet n c this = Some (path, b, w, c') \<longrightarrow>
      recorded_for c' (task_id (to_task packet)) = {}
      \<and> (\<forall>station_id. \<not> already_tried c' (task_id (to_task packet)) station_id)
      \<and> (\<forall>station_id. dispatched c' (task_id (to_task packet)) station_id))"
proof -
  let ?cleared = "recorded_for c' (task_id (to_task packet)) = {}
      \<and> (\<forall>station_id. \<not> already_tried c' (task_id (to_task packet)) station_id)
      \<and> (\<forall>station_id. dispatched c' (task_id (to_task packet)) station_id)"
  have handler: ?cleared
    if "on_offloading_message ip c this packet = (b, w, c') \<and> resolved b"
  proof -
    from that obtain c1 where "c' = erase_dispatching_record c1 (task_id (to_task packet))"
      using offloading_resolved by blast
    then show ?thesis by (simp add: already_tried_def dispatched_iff recorded_for_erase)
  qed
  have run: ?cleared if "offload_run ip packet n c this = Some (path, b, w, c')"
    using offload_run_resolved[OF that] by (simp add: already_tried_def dispatched_iff)
  from handler run show ?thesis by blast
qed

theorem resolved_clears_record_witness:
  "already_tried
     (dispatching_record (dispatching_record three_stations ''t2'' ''10.1.1.1'') ''t2'' ''10.1.1.2'')
     ''t2'' ''10.1.1.1''
   \<and> on_offloading_message ip_text
     (dispatching_record (dispatching_record three_stations ''t2'' ''10.1.1.1'') ''t2'' ''10.1.1.2'')
     station_C packet2 =
     (to_cloud, [(packet2\<lparr>msg_type := message_handling\<rparr>, fst cloud, snd cloud)], three_stations)
   \<and> recorded_for three_stations ''t2'' = {}
   \<and> \<not> already_tried three_stations ''t2'' ''10.1.1.1''
   \<and> offload_run ip_text packet2 4 three_stations station_A =
     Some ([station_A, station_B, station_C], to_cloud,
           [(packet2\<lparr>msg_type := message_handling\<rparr>, fst cloud, snd cloud)], three_stations)"
proof -
  have tid: "task_id (to_task packet2) = ''t2''"
    by (simp add: packet2_def task2_def)
  have before: "already_tried
     (dispatching_record (dispatching_record three_stations ''t2'' ''10.1.1.1'') ''t2'' ''10.1.1.2'')
     ''t2'' ''10.1.1.1''"
    by (simp add: already_tried_def recorded_for_dispatching_record)
  have "resolved to_cloud" by simp
  with step_C have "recorded_for three_stations (task_id (to_task packet2)) = {}
      \<and> (\<forall>station_id. \<not> already_tried three_stations (task_id (to_task packet2)) station_id)"
    using resolved_clears_record[of ip_text _ station_C packet2 to_cloud _ three_stations]
    by blast
  with before step_C run_A show ?thesis by (simp add: tid)
qed

section \<open>A packet on its way\<close>

text \<open>
  Claim C7. No revisit: in every state a packet reaches, when the station that holds it
  selects where to forward, \<open>already_tried\<close> is true for every station that handled the
  packet before and for the selecting station itself; the station selected is not recorded
  for the task, and it is none of the stations visited. In terms of the code's lookup,
  \<^verbatim>\<open>dispatched\<close> returns false for each station visited and true for the one selected.
\<close>

theorem no_revisit:
  assumes "offload_reach ip packet c0 s0 visited c this"
      and "on_offloading_message ip c this packet = (to_station it, w, c')"
  shows "(\<forall>v \<in> set (visited @ [this]).
            already_tried c' (task_id (to_task packet)) (ip (get_address v))
            \<and> \<not> dispatched c' (task_id (to_task packet)) (ip (get_address v)))
       \<and> \<not> already_tried c' (task_id (to_task packet)) (ip (get_address it))
       \<and> dispatched c' (task_id (to_task packet)) (ip (get_address it))
       \<and> (\<forall>v \<in> set (visited @ [this]). get_address it \<noteq> get_address v)
       \<and> it \<notin> set (visited @ [this])
       \<and> w = [(packet, get_address it, get_port it)]"
proof -
  let ?tid = "task_id (to_task packet)"
  have reach': "offload_reach ip packet c0 s0 (visited @ [this]) c' it"
    using assms by (rule offload_reach.forwarded)
  have rec: "ip (get_address v) \<in> recorded_for c' ?tid" if "v \<in> set (visited @ [this])" for v
    using reach' that by (rule reach_visited_recorded)
  from offloading_to_station(3)[OF assms(2)]
  have it: "ip (get_address it) \<notin> recorded_for c' ?tid"
    by (auto simp: find_Some_iff dispatched_iff)
  have differ: "get_address it \<noteq> get_address v" if "v \<in> set (visited @ [this])" for v
    using rec[OF that] it by auto
  then have "it \<notin> set (visited @ [this])" by blast
  with rec it differ offloading_to_station(4)[OF assms(2)]
  show ?thesis by (simp add: already_tried_def dispatched_iff)
qed

theorem no_revisit_witness:
  "offload_reach ip_text packet2 three_stations station_A [station_A]
     (dispatching_record three_stations ''t2'' ''10.1.1.1'') station_B
   \<and> on_offloading_message ip_text (dispatching_record three_stations ''t2'' ''10.1.1.1'') station_B packet2 =
     (to_station station_C, [(packet2, get_address station_C, get_port station_C)],
      dispatching_record (dispatching_record three_stations ''t2'' ''10.1.1.1'') ''t2'' ''10.1.1.2'')
   \<and> station_C \<notin> set [station_A, station_B]
   \<and> already_tried
        (dispatching_record (dispatching_record three_stations ''t2'' ''10.1.1.1'') ''t2'' ''10.1.1.2'')
        ''t2'' ''10.1.1.1''
   \<and> \<not> already_tried
        (dispatching_record (dispatching_record three_stations ''t2'' ''10.1.1.1'') ''t2'' ''10.1.1.2'')
        ''t2'' ''10.1.1.3''"
proof -
  have r: "offload_reach ip_text packet2 three_stations station_A ([] @ [station_A])
     (dispatching_record three_stations ''t2'' ''10.1.1.1'') station_B"
    by (rule offload_reach.forwarded[OF offload_reach.arrived step_A])
  have a: "ip_text (get_address station_A) = ''10.1.1.1''"
    "ip_text (get_address station_C) = ''10.1.1.3''" "task_id (to_task packet2) = ''t2''"
    by (simp_all add: scenario_defs)
  from no_revisit[OF r step_B] r step_B show ?thesis
    by (simp add: a)
qed

text \<open>
  Claim C1. For every packet, every container of \<open>N\<close> stations, whatever its record holds,
  and every station that receives the packet first, handling the packet again and again
  at the station it was forwarded to resolves the task within \<open>N + 1\<close> handling steps. The
  stations after the first are stations of the container. The last of them either has a
  first device whose offer satisfies the task and writes the handling message to that
  device, or has none and writes the handling message to its cloud address; this is all it
  writes, and at the end no record of the task is left.
\<close>

theorem offloading_terminates:
  "\<exists>path b w c'.
      offload_run ip packet (length (m_base_stations c) + 1) c this = Some (path, b, w, c')
      \<and> path \<noteq> [] \<and> hd path = this
      \<and> length path \<le> length (m_base_stations c) + 1
      \<and> set (tl path) \<subseteq> set (m_base_stations c)
      \<and> ((\<exists>d. b = to_device d
              \<and> first_fit (to_task packet) (m_edge_devices (last path)) = Some d
              \<and> w = [(packet\<lparr>msg_type := message_handling\<rparr>, device_address d, device_port d)])
          \<or> (b = to_cloud
              \<and> first_fit (to_task packet) (m_edge_devices (last path)) = None
              \<and> w = [(packet\<lparr>msg_type := message_handling\<rparr>,
                       fst (m_cs_address (last path)), snd (m_cs_address (last path)))]))
      \<and> recorded_for c' (task_id (to_task packet)) = {}"
proof -
  let ?n = "length (m_base_stations c) + 1"
  obtain path b w c' where run: "offload_run ip packet ?n c this = Some (path, b, w, c')"
    using offload_run_enough[of ip packet c this] by (metis prod_cases4)
  from offload_run_resolved[OF run]
  have res: "resolved b" "recorded_for c' (task_id (to_task packet)) = {}" "length path \<le> ?n"
    by simp_all
  from offload_run_last[OF run] obtain c_last where
    shape: "path \<noteq> []" "hd path = this" "set (tl path) \<subseteq> set (m_base_stations c)"
    and last: "on_offloading_message ip c_last (last path) packet = (b, w, c')"
    by blast
  note out = offloading_resolved_written[OF last res(1)]
  from run res shape out show ?thesis by blast
qed

end
